theory Spec2Isabelle
  imports Complex_Main
begin

section \<open>Python values and exceptions\<close>

text \<open>
  The configuration dictionaries of the tasks hold arbitrary Python values. The model
  keeps the kinds that a configuration file can carry. Floats are idealised as reals:
  there is no rounding, no infinity and no NaN in the model.
\<close>

datatype pyval =
    PNone
  | PBool bool
  | PInt int
  | PFloat real
  | PStr string
  | PList "pyval list"
  | PDict "(string \<times> pyval) list"

text \<open>
  The two messages of \<open>ValueError\<close> in \<open>Frequency.config\<close>: \<open>not_a_number\<close>
  and \<open>invalid_input\<close>. An exception carries the name of the parameter its message
  is formatted with.
\<close>

datatype reason = NotANumber | NotValid

datatype exn =
    KeyError string
  | ValueError reason string
  | TypeError
  | ZeroDivisionError
  | AttributeError
  | OSError

text \<open>
  The builtins \<open>float\<close> and \<open>int\<close>. On a string they parse a literal; the grammar
  of literals belongs to the interpreter, so the two parsers are parameters (\<open>None\<close>
  when the builtin raises \<open>ValueError\<close>). On \<open>None\<close>, a list or a dict the builtins
  raise \<open>TypeError\<close>, which \<open>except ValueError\<close> does not catch.
\<close>

fun py_float :: "(string \<Rightarrow> real option) \<Rightarrow> pyval \<Rightarrow> exn + real" where
  "py_float sf (PBool b) = Inr (if b then 1 else 0)"
| "py_float sf (PInt i) = Inr (real_of_int i)"
| "py_float sf (PFloat x) = Inr x"
| "py_float sf (PStr s) = (case sf s of None \<Rightarrow> Inl (ValueError NotANumber []) | Some x \<Rightarrow> Inr x)"
| "py_float sf v = Inl TypeError"

text \<open>\<open>int\<close> of a float truncates towards zero.\<close>

fun py_int :: "(string \<Rightarrow> int option) \<Rightarrow> pyval \<Rightarrow> exn + int" where
  "py_int si (PBool b) = Inr (if b then 1 else 0)"
| "py_int si (PInt i) = Inr i"
| "py_int si (PFloat x) = Inr (if 0 \<le> x then \<lfloor>x\<rfloor> else \<lceil>x\<rceil>)"
| "py_int si (PStr s) = (case si s of None \<Rightarrow> Inl (ValueError NotANumber []) | Some i \<Rightarrow> Inr i)"
| "py_int si v = Inl TypeError"

text \<open>
  A parser of plain decimal literals (an optional sign, then digits), used where a
  concrete parser is needed.
\<close>

definition digit_val :: "char \<Rightarrow> int option" where
  "digit_val c = (let n = (of_char c :: nat)
                  in if 48 \<le> n \<and> n \<le> 57 then Some (int n - 48) else None)"

fun digits_val :: "int \<Rightarrow> string \<Rightarrow> int option" where
  "digits_val acc [] = Some acc"
| "digits_val acc (c # cs) =
     (case digit_val c of None \<Rightarrow> None | Some d \<Rightarrow> digits_val (10 * acc + d) cs)"

definition decimal_int :: "string \<Rightarrow> int option" where
  "decimal_int s =
     (case s of
        [] \<Rightarrow> None
      | c # cs \<Rightarrow>
          if c = CHR ''-'' then (if cs = [] then None else map_option uminus (digits_val 0 cs))
          else if c = CHR ''+'' then (if cs = [] then None else digits_val 0 cs)
          else digits_val 0 s)"

definition decimal_real :: "string \<Rightarrow> real option" where
  "decimal_real s = map_option real_of_int (decimal_int s)"

section \<open>tasks/frequency.py\<close>

text \<open>
  The fields of a \<open>Frequency\<close> object, in the order \<open>__init__\<close> assigns them.
  Times are seconds as \<open>time.time()\<close> returns them.
\<close>

record frequency =
  time_per_trigger :: real
  reps :: int
  triggered :: int
  task :: pyval
  last_check :: real

text \<open>
  \<open>Frequency.__init__(freq, reps, task)\<close>; \<open>now\<close> is the reading of \<open>time.time()\<close>.
  The division \<open>3600 / freq\<close> raises on a zero \<open>freq\<close>.
\<close>

definition Frequency_init :: "real \<Rightarrow> int \<Rightarrow> pyval \<Rightarrow> real \<Rightarrow> exn + frequency" where
  "Frequency_init freq rps tsk now =
     (if freq = 0 then Inl ZeroDivisionError
      else Inr \<lparr> time_per_trigger = 3600 / freq, reps = rps, triggered = 0,
                 task = tsk, last_check = now \<rparr>)"

text \<open>
  \<open>Frequency.__call__\<close>. Its inputs from outside are \<open>now\<close>, the reading of
  \<open>time.time()\<close>, and \<open>draw\<close>, the value of \<open>random.random()\<close>. The local variable
  \<open>trigger_probability\<close> is a function of the state before the call and of \<open>now\<close>.
  It is computed from \<open>slept\<close>, the difference to the \<open>_last_check\<close> of before.
  The result is the exception raised, or the configuration handed to \<open>api.new_task\<close>
  when the trigger fires, paired with the object as the call leaves it:
  \<open>_last_check\<close> is assigned before the division, so it is updated also when the
  division raises.
\<close>

definition trigger_probability :: "frequency \<Rightarrow> real \<Rightarrow> real" where
  "trigger_probability s now = (now - last_check s) / time_per_trigger s"

definition call :: "frequency \<Rightarrow> real \<Rightarrow> real \<Rightarrow> (exn + pyval option) \<times> frequency" where
  "call s now draw =
     (let s1 = s\<lparr>last_check := now\<rparr>
      in if time_per_trigger s = 0 then (Inl ZeroDivisionError, s1)
         else if draw < trigger_probability s now
              then (Inr (Some (task s1)), s1\<lparr>triggered := triggered s1 + 1\<rparr>)
              else (Inr None, s1))"

text \<open>
  A sequence of calls on one object, each with its clock reading and its draw; a call
  that raises leaves the object as \<open>call\<close> gives it.
\<close>

fun calls :: "frequency \<Rightarrow> (real \<times> real) list \<Rightarrow> frequency" where
  "calls s [] = s"
| "calls s ((now, draw) # xs) = calls (snd (call s now draw)) xs"

text \<open>\<open>cleanup\<close> is \<open>pass\<close>; \<open>stop\<close> and \<open>status\<close> read the object and assign nothing.\<close>

definition cleanup :: "frequency \<Rightarrow> frequency" where
  "cleanup s = s"

definition stop :: "frequency \<Rightarrow> bool" where
  "stop s = (if reps s = 0 \<or> triggered s < reps s then False else True)"

text \<open>The decimal digits of \<open>'%d' % n\<close>.\<close>

function nat_digits :: "nat \<Rightarrow> string" where
  "nat_digits n =
     (if n < 10 then [char_of (48 + n)]
      else nat_digits (n div 10) @ [char_of (48 + n mod 10)])"
  by pat_completeness auto
termination
  by (relation "measure id") auto

declare nat_digits.simps [simp del]

definition show_int :: "int \<Rightarrow> string" where
  "show_int i = (if i < 0 then CHR ''-'' # nat_digits (nat (- i)) else nat_digits (nat i))"

definition status :: "frequency \<Rightarrow> string" where
  "status s = ''Triggered '' @ show_int (triggered s) @ '' times.''"

text \<open>
  \<open>Frequency.config(conf_dict)\<close>. The dictionary is a map from keys to values; \<open>sf\<close>
  and \<open>si\<close> are the literal parsers of \<open>float\<close> and \<open>int\<close>; \<open>now\<close> is the clock
  reading the constructor takes. The checks run in the order of the source, and the
  first one that fails raises.
\<close>

definition check_frequency :: "(string \<Rightarrow> real option) \<Rightarrow> (string \<rightharpoonup> pyval) \<Rightarrow> exn + real" where
  "check_frequency sf conf_dict =
     (case conf_dict ''frequency'' of
        None \<Rightarrow> Inl (KeyError ''frequency'')
      | Some v \<Rightarrow>
          (case py_float sf v of
             Inl (ValueError r m) \<Rightarrow> Inl (ValueError NotANumber ''frequency'')
           | Inl e \<Rightarrow> Inl e
           | Inr freq \<Rightarrow>
               if freq \<le> 0 then Inl (ValueError NotValid ''frequency'') else Inr freq))"

definition check_repetitions :: "(string \<Rightarrow> int option) \<Rightarrow> (string \<rightharpoonup> pyval) \<Rightarrow> exn + int" where
  "check_repetitions si conf_dict =
     (case conf_dict ''repetitions'' of
        None \<Rightarrow> Inl (KeyError ''repetitions'')
      | Some v \<Rightarrow>
          (case py_int si v of
             Inl (ValueError r m) \<Rightarrow> Inl (ValueError NotANumber ''repetitions'')
           | Inl e \<Rightarrow> Inl e
           | Inr rps \<Rightarrow>
               if rps < 0 then Inl (ValueError NotValid ''repetitions'') else Inr rps))"

definition check_task :: "(string \<rightharpoonup> pyval) \<Rightarrow> exn + pyval" where
  "check_task conf_dict =
     (case conf_dict ''task'' of
        None \<Rightarrow> Inl (KeyError ''task'')
      | Some v \<Rightarrow> Inr v)"

definition config ::
  "(string \<Rightarrow> real option) \<Rightarrow> (string \<Rightarrow> int option) \<Rightarrow> (string \<rightharpoonup> pyval) \<Rightarrow> real
     \<Rightarrow> exn + frequency" where
  "config sf si conf_dict now =
     (case check_frequency sf conf_dict of
        Inl e \<Rightarrow> Inl e
      | Inr freq \<Rightarrow>
          (case check_repetitions si conf_dict of
             Inl e \<Rightarrow> Inl e
           | Inr rps \<Rightarrow>
               (case check_task conf_dict of
                  Inl e \<Rightarrow> Inl e
                | Inr tsk \<Rightarrow> Frequency_init freq rps tsk now)))"

section \<open>tasks/iebrowser.py\<close>

text \<open>
  The two callables that the source ever puts on the queue are \<open>cls._start_ie\<close> and
  \<open>functools.partial(cls._visit_site, site)\<close>. A queue entry is the tuple
  \<open>(action, task_id, delay)\<close>. The delay is a duration in seconds, a natural number
  in the model: the source passes 0 and 10, and \<open>time.sleep\<close> takes no negative one.
\<close>

datatype action = StartIE | VisitSite string

type_synonym request = "action \<times> int \<times> nat"

text \<open>
  What calling an action does is decided by COM and by Internet Explorer, outside the
  repository: the driver gives, for an action and the current value of \<open>cls._ie\<close>,
  the traceback when the call raises (\<open>None\<close> when it returns) and the value of
  \<open>cls._ie\<close> it leaves. The handle type \<open>'h\<close> is arbitrary, so it can carry whatever
  outside state decides the outcome. Every call is taken to return or to raise an
  \<open>Exception\<close>, which is what \<open>except Exception\<close> catches.
\<close>

type_synonym 'h driver = "action \<Rightarrow> 'h option \<Rightarrow> string option \<times> 'h option"

text \<open>
  The trace of what the manager does that can be seen from outside, oldest first:
  a queue and its consumer thread created, a request put on the queue, an action
  called, a traceback handed to \<open>api.add_feedback\<close>, a \<open>time.sleep\<close>, the browser
  released at the end of the consumer thread, an exception raised to a caller.
\<close>

datatype event =
    Created
  | Put request
  | Exec request
  | Feedback int string
  | Sleep nat
  | Released
  | Raised exn

text \<open>
  Where a consumer thread stands in \<open>_action_executor\<close>: at the head of the
  \<open>while\<close> (line 57), holding a request it took from the queue and is about to call
  (line 66), past the loop before each of the two assignments (lines 71 and 72), before
  the \<open>try\<close> that quits the browser (lines 74 to 85), returned, or dead from an
  exception nothing catches.
\<close>

datatype pc =
    AtLoop
  | Calling request
  | AfterLoop
  | ResetPersist
  | Teardown
  | Exited
  | Died

text \<open>
  The class variables of \<open>IEManager\<close>, the consumer threads started so far in the
  order of their start, and the trace.
\<close>

record 'h ie_manager =
  action_queue :: "request list option"
  ie :: "'h option"
  persist :: bool
  threads :: "pc list"
  trace :: "event list"

definition fresh :: "'h ie_manager" where
  "fresh = \<lparr> action_queue = None, ie = None, persist = True, threads = [], trace = [] \<rparr>"

text \<open>\<open>cls._action_queue.put(r)\<close>: an \<open>AttributeError\<close> when the class variable is \<open>None\<close>.\<close>

definition put :: "request \<Rightarrow> 'h ie_manager \<Rightarrow> exn option \<times> 'h ie_manager" where
  "put r s =
     (case action_queue s of
        None \<Rightarrow> (Some AttributeError, s)
      | Some q \<Rightarrow> (None, s\<lparr>action_queue := Some (q @ [r]), trace := trace s @ [Put r]\<rparr>))"

text \<open>\<open>IEManager.__new__\<close>, run without a step of another thread in between.\<close>

definition IEManager_new :: "'h ie_manager \<Rightarrow> 'h ie_manager" where
  "IEManager_new s =
     (if action_queue s = None
      then let s1 = s\<lparr>action_queue := Some [], trace := trace s @ [Created]\<rparr>;
               s2 = s1\<lparr>threads := threads s1 @ [AtLoop]\<rparr>
           in snd (put (StartIE, 0, 10) s2)
      else s)"

definition get :: "string \<Rightarrow> int \<Rightarrow> nat \<Rightarrow> 'h ie_manager \<Rightarrow> exn option \<times> 'h ie_manager" where
  "get site task_id delay s = put (VisitSite site, task_id, delay) s"

definition close_browser :: "'h ie_manager \<Rightarrow> 'h ie_manager" where
  "close_browser s = s\<lparr>persist := False\<rparr>"

text \<open>
  One step of consumer thread \<open>i\<close>. At the head of the loop it evaluates the condition
  and, when it holds, calls \<open>get(timeout=1)\<close>: it takes the first request, or the call
  times out on an empty queue and the loop continues. Holding a request it calls the
  action, hands the traceback to \<open>api.add_feedback\<close> when the call raised, and sleeps.
\<close>

definition set_pc :: "nat \<Rightarrow> pc \<Rightarrow> 'h ie_manager \<Rightarrow> 'h ie_manager" where
  "set_pc i c s = s\<lparr>threads := (threads s)[i := c]\<rparr>"

definition run_action :: "'h driver \<Rightarrow> request \<Rightarrow> 'h ie_manager \<Rightarrow> 'h ie_manager" where
  "run_action drv r s =
     (case r of (action, task_id, delay) \<Rightarrow>
        (case drv action (ie s) of
           (None, h) \<Rightarrow>
             s\<lparr>ie := h, trace := trace s @ [Exec r, Sleep delay]\<rparr>
         | (Some tb, h) \<Rightarrow>
             s\<lparr>ie := h, trace := trace s @ [Exec r, Feedback task_id tb, Sleep delay]\<rparr>))"

definition worker_step :: "'h driver \<Rightarrow> nat \<Rightarrow> 'h ie_manager \<Rightarrow> 'h ie_manager" where
  "worker_step drv i s =
     (if length (threads s) \<le> i then s
      else case threads s ! i of
        AtLoop \<Rightarrow>
          (case action_queue s of
             None \<Rightarrow> set_pc i Died s
           | Some q \<Rightarrow>
               if persist s \<or> q \<noteq> []
               then (case q of
                       [] \<Rightarrow> s
                     | r # q' \<Rightarrow> set_pc i (Calling r) (s\<lparr>action_queue := Some q'\<rparr>))
               else set_pc i AfterLoop s)
      | Calling r \<Rightarrow> set_pc i AtLoop (run_action drv r s)
      | AfterLoop \<Rightarrow> set_pc i ResetPersist (s\<lparr>action_queue := None\<rparr>)
      | ResetPersist \<Rightarrow> set_pc i Teardown (s\<lparr>persist := True\<rparr>)
      | Teardown \<Rightarrow> set_pc i Exited (s\<lparr>ie := None, trace := trace s @ [Released]\<rparr>)
      | Exited \<Rightarrow> s
      | Died \<Rightarrow> s)"

text \<open>
  The calls of the main thread and the steps of the consumer threads, interleaved in
  any order: a schedule is a list of them. An exception of \<open>get\<close> goes to its caller
  and is noted in the trace.
\<close>

datatype step = New | Get string int nat | Close | Tick nat

definition do_step :: "'h driver \<Rightarrow> step \<Rightarrow> 'h ie_manager \<Rightarrow> 'h ie_manager" where
  "do_step drv e s =
     (case e of
        New \<Rightarrow> IEManager_new s
      | Get site task_id delay \<Rightarrow>
          (case get site task_id delay s of
             (None, s') \<Rightarrow> s'
           | (Some x, s') \<Rightarrow> s'\<lparr>trace := trace s' @ [Raised x]\<rparr>)
      | Close \<Rightarrow> close_browser s
      | Tick i \<Rightarrow> worker_step drv i s)"

fun run :: "'h driver \<Rightarrow> step list \<Rightarrow> 'h ie_manager \<Rightarrow> 'h ie_manager" where
  "run drv [] s = s"
| "run drv (e # es) s = run drv es (do_step drv e s)"

text \<open>Readings of a trace: the requests put, the requests called, the tracebacks fed back,
  and the part of the trace since the last queue was created.\<close>

fun puts :: "event list \<Rightarrow> request list" where
  "puts [] = []"
| "puts (Put r # t) = r # puts t"
| "puts (e # t) = puts t"

fun execs :: "event list \<Rightarrow> request list" where
  "execs [] = []"
| "execs (Exec r # t) = r # execs t"
| "execs (e # t) = execs t"

fun feedbacks :: "event list \<Rightarrow> (int \<times> string) list" where
  "feedbacks [] = []"
| "feedbacks (Feedback i tb # t) = (i, tb) # feedbacks t"
| "feedbacks (e # t) = feedbacks t"


text \<open>The requests that consumer threads hold and have not finished calling.\<close>

fun in_call :: "pc list \<Rightarrow> request list" where
  "in_call [] = []"
| "in_call (Calling r # cs) = r # in_call cs"
| "in_call (c # cs) = in_call cs"

text \<open>
  \<open>IEBrowser.__init__(config)\<close>. \<open>platform\<close> is the value of \<open>platform.system()\<close>;
  the constructor of the base class \<open>browser.Browser\<close> is a parameter. The object
  keeps the value of \<open>close_browser\<close> and the base object; its \<open>_driver\<close> is the class
  \<open>IEManager\<close> itself.
\<close>

record 'b iebrowser =
  base :: 'b
  close :: pyval

definition IEBrowser_init ::
  "((string \<rightharpoonup> pyval) \<Rightarrow> exn + 'b) \<Rightarrow> string \<Rightarrow> (string \<rightharpoonup> pyval) \<Rightarrow> 'h ie_manager
     \<Rightarrow> (exn + 'b iebrowser) \<times> 'h ie_manager" where
  "IEBrowser_init browser_init platform conf s =
     (if \<not> platform = ''Windows'' then (Inl OSError, s)
      else case browser_init conf of
        Inl x \<Rightarrow> (Inl x, s)
      | Inr b \<Rightarrow>
          (case conf ''close_browser'' of
             None \<Rightarrow> (Inl (KeyError ''close_browser''), s)
           | Some c \<Rightarrow> (Inr \<lparr> base = b, close = c \<rparr>, IEManager_new s)))"


definition failing_driver :: "string \<Rightarrow> nat driver" where
  "failing_driver bad a h =
     (case a of
        StartIE \<Rightarrow> (None, Some 1)
      | VisitSite u \<Rightarrow> (if u = bad then (Some ''Traceback'', h) else (None, h)))"

text \<open>The requests of a list called one after the other, as the loop does with a queue.\<close>

fun run_actions :: "'h driver \<Rightarrow> request list \<Rightarrow> 'h ie_manager \<Rightarrow> 'h ie_manager" where
  "run_actions drv [] s = s"
| "run_actions drv (r # q) s = run_actions drv q (run_action drv r s)"

text \<open>
  What holds of every state the manager can reach. A thread is in the loop when it is
  at its head, holds a request, or has just left it and not yet reset the queue.
  Threads are started one at a time, each after the one before has reset the queue, so
  only the thread started last can be in the loop, and it is exactly when the queue
  exists. Since the last queue was created, the requests put are the requests called,
  then the one in a call, then the queue, in this order; and the first one put is the
  start of the browser.
\<close>

definition in_loop :: "pc \<Rightarrow> bool" where
  "in_loop c = (case c of AtLoop \<Rightarrow> True | Calling r \<Rightarrow> True | AfterLoop \<Rightarrow> True | _ \<Rightarrow> False)"





text \<open>
  A thread is past its loop when it is neither at the head of the loop nor holding a
  request. Thread \<open>i\<close> is draining the requests \<open>p0\<close> from a trace whose calls
  were \<open>e0\<close> when the calls made since begin with \<open>p0\<close>, or, while the thread is
  still in its loop, with a part of it, the rest being in its hands or first in the
  queue.
\<close>

definition left_loop :: "pc \<Rightarrow> bool" where
  "left_loop c = (case c of AtLoop \<Rightarrow> False | Calling r \<Rightarrow> False | _ \<Rightarrow> True)"


text \<open>
  The bound on the count of firings that the data model states for a trigger:
  \<open>maxTriggers == 0 OR triggerCount <= maxTriggers\<close>.
\<close>

definition count_bounded :: "frequency \<Rightarrow> bool" where
  "count_bounded s \<longleftrightarrow> reps s = 0 \<or> triggered s \<le> reps s"








section \<open>Properties of the trigger\<close>



lemma reps_call [simp]: "reps (snd (call s now draw)) = reps s"
  by (simp add: call_def Let_def)

lemma reps_calls [simp]: "reps (calls s xs) = reps s"
  by (induction s xs rule: calls.induct) simp_all

text \<open>
  C1. \<open>stop\<close> is true exactly when the limit \<open>_reps\<close> is not 0 and the count
  \<open>_triggered\<close> has reached it. With a limit of 5, after any sequence of calls, it is
  false while the count is below 5 and true once the count is 5 or more.
\<close>

theorem stop_iff:
  "(stop s \<longleftrightarrow> reps s \<noteq> 0 \<and> reps s \<le> triggered s)
   \<and> (reps s = 5 \<longrightarrow> (stop (calls s xs) \<longleftrightarrow> 5 \<le> triggered (calls s xs)))"
  by (simp add: stop_def not_less)

theorem stop_iff_witness:
  "reps \<lparr>time_per_trigger = 1, reps = 5, triggered = 3, task = PNone, last_check = 0\<rparr> = 5
   \<and> \<not> stop (calls \<lparr>time_per_trigger = 1, reps = 5, triggered = 3, task = PNone, last_check = 0\<rparr>
               [(1, 0)])
   \<and> stop (calls \<lparr>time_per_trigger = 1, reps = 5, triggered = 3, task = PNone, last_check = 0\<rparr>
             [(1, 0), (2, 0)])
   \<and> triggered (calls \<lparr>time_per_trigger = 1, reps = 5, triggered = 3, task = PNone, last_check = 0\<rparr>
                  [(1, 0), (2, 0)]) = 5"
  using
    stop_iff [of "\<lparr>time_per_trigger = 1, reps = 5, triggered = 3, task = PNone, last_check = 0\<rparr>"
      "[(1, 0)]"]
    stop_iff [of "\<lparr>time_per_trigger = 1, reps = 5, triggered = 3, task = PNone, last_check = 0\<rparr>"
      "[(1, 0), (2, 0)]"]
  by (simp add: call_def trigger_probability_def)




text \<open>
  C3, as stated, fails: a call made when the count has reached the limit can fire and
  takes the count above the limit. A trigger configured for one firing, called twice
  a second apart with draws of 0, has fired twice.
\<close>

theorem count_bounded_counterexample:
  "config decimal_real decimal_int
     [''frequency'' \<mapsto> PInt 3600, ''repetitions'' \<mapsto> PInt 1, ''task'' \<mapsto> PNone] 0
     = Inr \<lparr>time_per_trigger = 1, reps = 1, triggered = 0, task = PNone, last_check = 0\<rparr>
   \<and> calls \<lparr>time_per_trigger = 1, reps = 1, triggered = 0, task = PNone, last_check = 0\<rparr>
       [(1, 0), (2, 0)]
     = \<lparr>time_per_trigger = 1, reps = 1, triggered = 2, task = PNone, last_check = 2\<rparr>
   \<and> \<not> count_bounded
         \<lparr>time_per_trigger = 1, reps = 1, triggered = 2, task = PNone, last_check = 2\<rparr>"
  by (simp add: config_def check_frequency_def check_repetitions_def check_task_def
        Frequency_init_def count_bounded_def call_def trigger_probability_def)

text \<open>
  C3, amended. The bound holds for every trigger that \<open>config\<close> constructs, every call
  made while \<open>stop\<close> is false keeps it, and so does \<open>cleanup\<close>; \<open>stop\<close> and
  \<open>status\<close> assign nothing.
\<close>

theorem count_bounded_while_running:
  "(config sf si conf_dict t0 = Inr s0 \<longrightarrow> count_bounded s0)
   \<and> (count_bounded s \<and> \<not> stop s \<longrightarrow> count_bounded (snd (call s now draw)))
   \<and> (count_bounded s \<longrightarrow> count_bounded (cleanup s))"
  by (auto simp: config_def check_repetitions_def Frequency_init_def count_bounded_def
        stop_def call_def Let_def cleanup_def
      split: sum.splits option.splits exn.splits if_splits)

theorem count_bounded_while_running_witness:
  "config decimal_real decimal_int
     [''frequency'' \<mapsto> PInt 3600, ''repetitions'' \<mapsto> PInt 2, ''task'' \<mapsto> PNone] 0
     = Inr \<lparr>time_per_trigger = 1, reps = 2, triggered = 0, task = PNone, last_check = 0\<rparr>
   \<and> count_bounded \<lparr>time_per_trigger = 1, reps = 2, triggered = 0, task = PNone, last_check = 0\<rparr>
   \<and> \<not> stop \<lparr>time_per_trigger = 1, reps = 2, triggered = 0, task = PNone, last_check = 0\<rparr>
   \<and> count_bounded
        (snd (call \<lparr>time_per_trigger = 1, reps = 2, triggered = 0, task = PNone, last_check = 0\<rparr>
                1 0))
   \<and> triggered
        (snd (call \<lparr>time_per_trigger = 1, reps = 2, triggered = 0, task = PNone, last_check = 0\<rparr>
                1 0)) = 1
   \<and> count_bounded
        (cleanup \<lparr>time_per_trigger = 1, reps = 2, triggered = 0, task = PNone, last_check = 0\<rparr>)"
proof -
  have a: "config decimal_real decimal_int
     [''frequency'' \<mapsto> PInt 3600, ''repetitions'' \<mapsto> PInt 2, ''task'' \<mapsto> PNone] 0
     = Inr \<lparr>time_per_trigger = 1, reps = 2, triggered = 0, task = PNone, last_check = 0\<rparr>"
    by (simp add: config_def check_frequency_def check_repetitions_def check_task_def
          Frequency_init_def)
  have b: "\<not> stop \<lparr>time_per_trigger = 1, reps = 2, triggered = 0, task = PNone, last_check = 0\<rparr>"
    by (simp add: stop_def)
  have c: "triggered
        (snd (call \<lparr>time_per_trigger = 1, reps = 2, triggered = 0, task = PNone, last_check = 0\<rparr>
                1 0)) = 1"
    by (simp add: call_def trigger_probability_def)
  show ?thesis
    using a b c
      count_bounded_while_running [of decimal_real decimal_int
        "[''frequency'' \<mapsto> PInt 3600, ''repetitions'' \<mapsto> PInt 2, ''task'' \<mapsto> PNone]" 0
        "\<lparr>time_per_trigger = 1, reps = 2, triggered = 0, task = PNone, last_check = 0\<rparr>"
        "\<lparr>time_per_trigger = 1, reps = 2, triggered = 0, task = PNone, last_check = 0\<rparr>" 1 0]
    by simp
qed




text \<open>
  C5, as stated, fails: a call that does not fire still assigns \<open>_last_check\<close>.
\<close>

theorem sample_frame_counterexample:
  "fst (call \<lparr>time_per_trigger = 3600, reps = 0, triggered = 0, task = PNone, last_check = 0\<rparr>
          10 (1 / 2)) = Inr None
   \<and> last_check
       (snd (call \<lparr>time_per_trigger = 3600, reps = 0, triggered = 0, task = PNone, last_check = 0\<rparr>
               10 (1 / 2))) = 10"
  by (simp add: call_def trigger_probability_def)

text \<open>
  C5, amended. Every call sets \<open>_last_check\<close> to the current time, whether it fires or
  not; \<open>_triggered\<close> grows by one when the call fires and is unchanged otherwise; no
  other field changes.
\<close>

theorem sample_frame:
  "snd (call s now draw) =
     s\<lparr>last_check := now,
       triggered := (if fst (call s now draw) = Inr (Some (task s))
                     then triggered s + 1 else triggered s)\<rparr>"
  by (simp add: call_def Let_def)

section \<open>Properties of the shared browser\<close>


lemma run_action_fields [simp]:
  "action_queue (run_action drv r s) = action_queue s"
  "persist (run_action drv r s) = persist s"
  "threads (run_action drv r s) = threads s"
  by (auto simp: run_action_def split: prod.splits option.splits)

lemma run_action_queue_update [simp]:
  "run_action drv r (s\<lparr>action_queue := x\<rparr>) = (run_action drv r s)\<lparr>action_queue := x\<rparr>"
  by (auto simp: run_action_def split: prod.splits option.splits)

lemma run_action_persist_update [simp]:
  "run_action drv r (s\<lparr>persist := x\<rparr>) = (run_action drv r s)\<lparr>persist := x\<rparr>"
  by (auto simp: run_action_def split: prod.splits option.splits)

lemma run_action_threads_update [simp]:
  "run_action drv r (s\<lparr>threads := x\<rparr>) = (run_action drv r s)\<lparr>threads := x\<rparr>"
  by (auto simp: run_action_def split: prod.splits option.splits)

lemma threads_update_same: "threads s = x \<Longrightarrow> s\<lparr>threads := x\<rparr> = s"
  by auto

lemma run_actions_fields [simp]:
  "action_queue (run_actions drv q s) = action_queue s"
  "persist (run_actions drv q s) = persist s"
  "threads (run_actions drv q s) = threads s"
  by (induction q arbitrary: s) auto

lemma run_actions_queue_update [simp]:
  "run_actions drv q (s\<lparr>action_queue := x\<rparr>) = (run_actions drv q s)\<lparr>action_queue := x\<rparr>"
  by (induction q arbitrary: s) auto

lemma run_actions_persist_update [simp]:
  "run_actions drv q (s\<lparr>persist := x\<rparr>) = (run_actions drv q s)\<lparr>persist := x\<rparr>"
  by (induction q arbitrary: s) auto

lemma run_actions_append:
  "run_actions drv (q @ q') s = run_actions drv q' (run_actions drv q s)"
  by (induction q arbitrary: s) auto

lemma execs_append [simp]: "execs (t @ u) = execs t @ execs u"
  by (induction t rule: execs.induct) auto

lemma puts_append [simp]: "puts (t @ u) = puts t @ puts u"
  by (induction t rule: puts.induct) auto

lemma feedbacks_append [simp]: "feedbacks (t @ u) = feedbacks t @ feedbacks u"
  by (induction t rule: feedbacks.induct) auto

lemma run_action_trace:
  "\<exists>t. trace (run_action drv r s) = trace s @ t \<and> execs t = [r] \<and> puts t = []
       \<and> Released \<notin> set t \<and> Created \<notin> set t
       \<and> feedbacks t = (case fst (drv (fst r) (ie s)) of None \<Rightarrow> []
                                                    | Some tb \<Rightarrow> [(fst (snd r), tb)])"
  by (cases r) (auto simp: run_action_def split: prod.splits option.splits)

lemma run_actions_trace:
  "\<exists>t. trace (run_actions drv q s) = trace s @ t \<and> execs t = q \<and> puts t = []
       \<and> Released \<notin> set t \<and> Created \<notin> set t"
proof (induction q arbitrary: s)
  case Nil
  then show ?case by simp
next
  case (Cons r q)
  obtain t where t: "trace (run_action drv r s) = trace s @ t" "execs t = [r]" "puts t = []"
      "Released \<notin> set t" "Created \<notin> set t"
    using run_action_trace [of drv r s] by blast
  obtain u where u: "trace (run_actions drv q (run_action drv r s)) = trace (run_action drv r s) @ u"
      "execs u = q" "puts u = []" "Released \<notin> set u" "Created \<notin> set u"
    using Cons.IH [of "run_action drv r s"] by blast
  show ?case
    by (rule exI [of _ "t @ u"]) (use t u in simp)
qed

lemma two_ticks:
  assumes "i < length (threads s)" "threads s ! i = AtLoop" "action_queue s = Some (r # q)"
  shows "worker_step drv i (worker_step drv i s) = (run_action drv r s)\<lparr>action_queue := Some q\<rparr>"
proof -
  have "worker_step drv i s = s\<lparr>action_queue := Some q, threads := (threads s)[i := Calling r]\<rparr>"
    using assms by (simp add: worker_step_def set_pc_def)
  moreover have "(threads s)[i := AtLoop] = threads s"
    using assms by (simp add: list_update_same_conv)
  moreover have "(run_action drv r s)\<lparr>threads := threads s\<rparr> = run_action drv r s"
    by (rule threads_update_same) simp
  ultimately show ?thesis
    using assms by (simp add: worker_step_def set_pc_def)
qed

lemma drain:
  assumes "i < length (threads s)" "threads s ! i = AtLoop" "action_queue s = Some (q @ rest)"
  shows "run drv (replicate (2 * length q) (Tick i)) s
           = (run_actions drv q s)\<lparr>action_queue := Some rest\<rparr>"
  using assms
proof (induction q arbitrary: s)
  case Nil
  then show ?case by simp
next
  case (Cons r q)
  let ?s2 = "(run_action drv r s)\<lparr>action_queue := Some (q @ rest)\<rparr>"
  have step2: "worker_step drv i (worker_step drv i s) = ?s2"
    using Cons.prems two_ticks [of i s r "q @ rest" drv] by simp
  have "run drv (replicate (2 * length (r # q)) (Tick i)) s
          = run drv (replicate (2 * length q) (Tick i)) (worker_step drv i (worker_step drv i s))"
    by (simp add: do_step_def)
  also have "\<dots> = (run_actions drv q ?s2)\<lparr>action_queue := Some rest\<rparr>"
    unfolding step2 using Cons.prems by (intro Cons.IH) simp_all
  also have "\<dots> = (run_actions drv (r # q) s)\<lparr>action_queue := Some rest\<rparr>"
    by simp
  finally show ?case .
qed



lemma in_call_append [simp]: "in_call (xs @ ys) = in_call xs @ in_call ys"
  by (induction xs rule: in_call.induct) auto

















lemma in_call_single [simp]:
  "in_call [AtLoop] = []" "in_call [Calling r] = [r]" "in_call [AfterLoop] = []"
  by simp_all

lemma in_loop_simps [simp]:
  "in_loop AtLoop" "in_loop (Calling r)" "in_loop AfterLoop"
  "\<not> in_loop ResetPersist" "\<not> in_loop Teardown" "\<not> in_loop Exited" "\<not> in_loop Died"
  by (simp_all add: in_loop_def)




text \<open>The definitions that evaluate a schedule on a concrete state.\<close>

lemmas eval_defs = do_step_def IEManager_new_def put_def get_def close_browser_def
  worker_step_def set_pc_def run_action_def fresh_def Let_def




text \<open>
  A thread that has all of a given list of requests still to call keeps to it under
  every step of any thread, until it is past the loop.
\<close>

lemma left_loop_simps [simp]:
  "\<not> left_loop AtLoop" "\<not> left_loop (Calling r)" "left_loop AfterLoop"
  "left_loop ResetPersist" "left_loop Teardown" "left_loop Exited" "left_loop Died"
  by (simp_all add: left_loop_def)










text \<open>
  C8. A thread at the head of the loop, with a queue in which request \<open>B\<close> comes after
  the requests \<open>pre\<close> and before the requests \<open>post\<close>, and \<open>B\<close> raises when its
  turn comes: the two steps for \<open>B\<close> add to the trace the call of \<open>B\<close>, one feedback
  with the task id of \<open>B\<close> and the traceback, and the sleep; the thread is back at the
  head of the loop with \<open>post\<close> still queued; and after the steps for the whole queue
  every request of it has been called, in order, and the thread is still in the loop.
\<close>

theorem failure_is_isolated:
  assumes "i < length (threads s)" "threads s ! i = AtLoop"
    and "action_queue s = Some (pre @ (a, tid, d) # post)"
    and "fst (drv a (ie (run drv (replicate (2 * length pre) (Tick i)) s))) = Some tb"
  shows "trace (run drv (replicate (2 * length pre + 2) (Tick i)) s)
           = trace (run drv (replicate (2 * length pre) (Tick i)) s)
               @ [Exec (a, tid, d), Feedback tid tb, Sleep d]
         \<and> threads (run drv (replicate (2 * length pre + 2) (Tick i)) s) ! i = AtLoop
         \<and> action_queue (run drv (replicate (2 * length pre + 2) (Tick i)) s) = Some post
         \<and> execs (trace (run drv (replicate (2 * length (pre @ (a, tid, d) # post)) (Tick i)) s))
             = execs (trace s) @ pre @ (a, tid, d) # post
         \<and> threads (run drv (replicate (2 * length (pre @ (a, tid, d) # post)) (Tick i)) s) ! i
             = AtLoop
         \<and> action_queue (run drv (replicate (2 * length (pre @ (a, tid, d) # post)) (Tick i)) s)
             = Some []"
proof -
  let ?b = "(a, tid, d)"
  let ?s1 = "run drv (replicate (2 * length pre) (Tick i)) s"
  have s1: "?s1 = (run_actions drv pre s)\<lparr>action_queue := Some (?b # post)\<rparr>"
    by (rule drain) (use assms in simp_all)
  have s2: "run drv (replicate (2 * length (pre @ [?b])) (Tick i)) s
              = (run_actions drv (pre @ [?b]) s)\<lparr>action_queue := Some post\<rparr>"
    by (rule drain) (use assms in simp_all)
  have s3: "run drv (replicate (2 * length (pre @ ?b # post)) (Tick i)) s
              = (run_actions drv (pre @ ?b # post) s)\<lparr>action_queue := Some []\<rparr>"
    by (rule drain) (use assms in simp_all)
  have len: "2 * length (pre @ [?b]) = 2 * length pre + 2" by simp
  have raise: "fst (drv a (ie (run_actions drv pre s))) = Some tb"
    using assms(4) unfolding s1 by simp
  have tr: "trace (run_action drv ?b (run_actions drv pre s))
              = trace (run_actions drv pre s) @ [Exec ?b, Feedback tid tb, Sleep d]"
    using raise by (auto simp: run_action_def split: prod.splits option.splits)
  obtain t where t: "trace (run_actions drv (pre @ ?b # post) s) = trace s @ t"
      "execs t = pre @ ?b # post"
    using run_actions_trace [of drv "pre @ ?b # post" s] by blast
  show ?thesis
    using s2 s3 tr t assms(1,2) unfolding len s1
    by (simp add: run_actions_append)
qed

theorem failure_is_isolated_witness:
  "(0::nat) < length [AtLoop] \<and> [AtLoop] ! 0 = AtLoop
   \<and> fst (failing_driver ''b'' (VisitSite ''b'')
        (ie (run (failing_driver ''b'') (replicate (2 * length [(VisitSite ''a'', 1::int, 0::nat)]) (Tick 0))
          \<lparr> action_queue = Some ([(VisitSite ''a'', 1, 0)] @ (VisitSite ''b'', 2, 0)
                                     # [(VisitSite ''c'', 3, 0)]),
             ie = Some 1, persist = True, threads = [AtLoop], trace = [] \<rparr>))) = Some ''Traceback''
   \<and> trace (run (failing_driver ''b'') (replicate 6 (Tick 0))
          \<lparr> action_queue = Some ([(VisitSite ''a'', 1, 0)] @ (VisitSite ''b'', 2, 0)
                                     # [(VisitSite ''c'', 3, 0)]),
             ie = Some 1, persist = True, threads = [AtLoop], trace = [] \<rparr>)
       = [Exec (VisitSite ''a'', 1, 0), Sleep 0,
          Exec (VisitSite ''b'', 2, 0), Feedback 2 ''Traceback'', Sleep 0,
          Exec (VisitSite ''c'', 3, 0), Sleep 0]
   \<and> action_queue (run (failing_driver ''b'') (replicate 6 (Tick 0))
          \<lparr> action_queue = Some ([(VisitSite ''a'', 1, 0)] @ (VisitSite ''b'', 2, 0)
                                     # [(VisitSite ''c'', 3, 0)]),
             ie = Some 1, persist = True, threads = [AtLoop], trace = [] \<rparr>) = Some []"
  using failure_is_isolated [of 0
      "\<lparr> action_queue = Some ([(VisitSite ''a'', 1, 0)] @ (VisitSite ''b'', 2, 0)
                                     # [(VisitSite ''c'', 3, 0)]),
         ie = Some 1, persist = True, threads = [AtLoop], trace = [] \<rparr>"
      "[(VisitSite ''a'', 1, 0)]" "VisitSite ''b''" 2 0 "[(VisitSite ''c'', 3, 0)]"
      "failing_driver ''b''" "''Traceback''"]
  by (simp add: eval_defs failing_driver_def numeral_eq_Suc)




text \<open>
  C10. On a platform other than Windows the constructor of \<open>IEBrowser\<close> raises
  \<open>OSError\<close> and the class variables of \<open>IEManager\<close>, its threads and its trace are
  what they were: no queue created, no thread started, nothing put.
\<close>

theorem iebrowser_needs_windows:
  "platform \<noteq> ''Windows'' \<Longrightarrow>
     IEBrowser_init browser_init platform conf s = (Inl OSError, s)"
  by (simp add: IEBrowser_init_def)

theorem iebrowser_needs_windows_witness:
  "''Linux'' \<noteq> ''Windows''
   \<and> IEBrowser_init (\<lambda>c. Inr ()) ''Linux'' [''close_browser'' \<mapsto> PBool False]
        (fresh :: nat ie_manager) = (Inl OSError, fresh)
   \<and> IEBrowser_init (\<lambda>c. Inr ()) ''Windows'' [''close_browser'' \<mapsto> PBool False]
        (fresh :: nat ie_manager)
       = (Inr \<lparr> base = (), close = PBool False \<rparr>,
          \<lparr> action_queue = Some [(StartIE, 0, 10)], ie = None, persist = True,
            threads = [AtLoop], trace = [Created, Put (StartIE, 0, 10)] \<rparr>)"
proof -
  have a: "''Linux'' \<noteq> ''Windows''" by simp
  show ?thesis
    using a iebrowser_needs_windows [OF a, of "\<lambda>c. Inr ()" "[''close_browser'' \<mapsto> PBool False]"
        "fresh :: nat ie_manager"]
    by (simp add: IEBrowser_init_def eval_defs)
qed

end
